theory Spec2Isabelle
  imports Main "HOL-Library.Word"
begin

section \<open>Parsed update expressions (alternator/expressions\_types.hh)\<close>

text \<open>
  The header declares the parse tree of an update expression: \<open>path\<close>, \<open>value\<close>,
  \<open>set_rhs\<close>, \<open>update_expression::action\<close> and \<open>update_expression\<close>. Every class is
  default-constructed and then filled by setters. A setter of the source mutates
  \<open>*this\<close>; here it takes the object last and returns the new object. A member
  function that can throw returns the exception (if any) together with the object as
  the call leaves it.
\<close>

subsection \<open>path\<close>

type_synonym unsigned = "32 word"

text \<open>An element of \<open>_operators\<close>: \<open>std::variant<std::string, unsigned>\<close>.\<close>

datatype deref_operator = Dot string | Index unsigned

record path =
  path_root :: string
  path_operators :: "deref_operator list"

definition path_default :: path where
  "path_default = \<lparr>path_root = [], path_operators = []\<rparr>"

definition set_root :: "string \<Rightarrow> path \<Rightarrow> path" where
  "set_root root p = p\<lparr>path_root := root\<rparr>"

definition add_index :: "unsigned \<Rightarrow> path \<Rightarrow> path" where
  "add_index i p = p\<lparr>path_operators := path_operators p @ [Index i]\<rparr>"

definition add_dot :: "string \<Rightarrow> path \<Rightarrow> path" where
  "add_dot name p = p\<lparr>path_operators := path_operators p @ [Dot name]\<rparr>"

definition root :: "path \<Rightarrow> string" where
  "root p = path_root p"

definition has_operators :: "path \<Rightarrow> bool" where
  "has_operators p = (path_operators p \<noteq> [])"

subsection \<open>Errors\<close>

text \<open>
  \<open>std::get\<close> on a \<open>std::variant\<close> holding another alternative throws
  \<open>std::bad_variant_access\<close>; that is the only exception the header itself can raise.
  \<open>DuplicatePathError\<close> is the error the specification gives to
  \<open>update_expression::add\<close> and \<open>append\<close>; it carries the offending path.
\<close>

datatype error = bad_variant_access | DuplicatePathError path

type_synonym 's outcome = "error option \<times> 's"

subsection \<open>value\<close>

text \<open>
  \<open>_value\<close> is \<open>std::variant<std::string, path, function_call>\<close>, and
  \<open>function_call\<close> holds a vector of values again.
\<close>

datatype function_call =
  Function_call (function_name: string) (parameters: "parsed_value list")
and parsed_value =
  V_string string | V_path path | V_function_call function_call

text \<open>A default-constructed variant holds its first alternative, value-initialised.\<close>

definition parsed_value_default :: parsed_value where
  "parsed_value_default = V_string []"

definition set_valref :: "string \<Rightarrow> parsed_value \<Rightarrow> parsed_value" where
  "set_valref s self = V_string s"

definition set_path :: "path \<Rightarrow> parsed_value \<Rightarrow> parsed_value" where
  "set_path p self = V_path p"

definition set_func_name :: "string \<Rightarrow> parsed_value \<Rightarrow> parsed_value" where
  "set_func_name s self = V_function_call (Function_call s [])"

fun add_func_parameter :: "parsed_value \<Rightarrow> parsed_value \<Rightarrow> parsed_value outcome" where
  "add_func_parameter v (V_function_call fc) =
     (None, V_function_call (Function_call (function_name fc) (parameters fc @ [v])))"
| "add_func_parameter v self = (Some bad_variant_access, self)"

fun is_valref :: "parsed_value \<Rightarrow> bool" where
  "is_valref (V_string s) = True"
| "is_valref self = False"

fun is_function_call :: "parsed_value \<Rightarrow> bool" where
  "is_function_call (V_function_call fc) = True"
| "is_function_call self = False"

fun is_path :: "parsed_value \<Rightarrow> bool" where
  "is_path (V_path p) = True"
| "is_path self = False"

fun as_valref :: "parsed_value \<Rightarrow> error + string" where
  "as_valref (V_string s) = Inr s"
| "as_valref self = Inl bad_variant_access"

fun as_function_call :: "parsed_value \<Rightarrow> error + function_call" where
  "as_function_call (V_function_call fc) = Inr fc"
| "as_function_call self = Inl bad_variant_access"

fun as_path :: "parsed_value \<Rightarrow> error + path" where
  "as_path (V_path p) = Inr p"
| "as_path self = Inl bad_variant_access"

text \<open>
  A caller appending several parameters in a row: the first exception ends the
  sequence and leaves the object as it was at that call.
\<close>

fun add_func_parameters :: "parsed_value list \<Rightarrow> parsed_value \<Rightarrow> parsed_value outcome" where
  "add_func_parameters [] self = (None, self)"
| "add_func_parameters (v # vs) self =
     (case add_func_parameter v self of
        (Some e, self') \<Rightarrow> (Some e, self')
      | (None, self') \<Rightarrow> add_func_parameters vs self')"

subsection \<open>set\_rhs\<close>

record set_rhs =
  rhs_op :: char
  rhs_v1 :: parsed_value
  rhs_v2 :: parsed_value

definition set_value :: "parsed_value \<Rightarrow> set_rhs \<Rightarrow> set_rhs" where
  "set_value v1 self = self\<lparr>rhs_op := CHR ''v'', rhs_v1 := v1\<rparr>"

definition set_plus :: "parsed_value \<Rightarrow> set_rhs \<Rightarrow> set_rhs" where
  "set_plus v2 self = self\<lparr>rhs_op := CHR ''+'', rhs_v2 := v2\<rparr>"

definition set_minus :: "parsed_value \<Rightarrow> set_rhs \<Rightarrow> set_rhs" where
  "set_minus v2 self = self\<lparr>rhs_op := CHR ''-'', rhs_v2 := v2\<rparr>"

subsection \<open>update\_expression::action\<close>

text \<open>\<open>_action\<close> is \<open>std::variant<set, remove, add, del>\<close>.\<close>

datatype action_variant =
  A_set set_rhs | A_remove | A_add string | A_del string

record action =
  action_path :: path
  action_variant :: action_variant

definition assign_set :: "path \<Rightarrow> set_rhs \<Rightarrow> action \<Rightarrow> action" where
  "assign_set p rhs self = self\<lparr>action_path := p, action_variant := A_set rhs\<rparr>"

definition assign_remove :: "path \<Rightarrow> action \<Rightarrow> action" where
  "assign_remove p self = self\<lparr>action_path := p, action_variant := A_remove\<rparr>"

definition assign_add :: "path \<Rightarrow> string \<Rightarrow> action \<Rightarrow> action" where
  "assign_add p v self = self\<lparr>action_path := p, action_variant := A_add v\<rparr>"

definition assign_del :: "path \<Rightarrow> string \<Rightarrow> action \<Rightarrow> action" where
  "assign_del p v self = self\<lparr>action_path := p, action_variant := A_del v\<rparr>"

definition is_set :: "action \<Rightarrow> bool" where
  "is_set self = (case action_variant self of A_set rhs \<Rightarrow> True | _ \<Rightarrow> False)"

definition is_remove :: "action \<Rightarrow> bool" where
  "is_remove self = (case action_variant self of A_remove \<Rightarrow> True | _ \<Rightarrow> False)"

definition is_add :: "action \<Rightarrow> bool" where
  "is_add self = (case action_variant self of A_add v \<Rightarrow> True | _ \<Rightarrow> False)"

definition is_del :: "action \<Rightarrow> bool" where
  "is_del self = (case action_variant self of A_del v \<Rightarrow> True | _ \<Rightarrow> False)"

subsection \<open>update\_expression\<close>

record update_expression =
  ue_actions :: "action list"
  seen_set :: bool
  seen_remove :: bool
  seen_add :: bool
  seen_del :: bool

definition update_expression_default :: update_expression where
  "update_expression_default =
     \<lparr>ue_actions = [], seen_set = False, seen_remove = False,
      seen_add = False, seen_del = False\<rparr>"

definition empty_ue :: "update_expression \<Rightarrow> bool" where
  "empty_ue self = (ue_actions self = [])"

definition actions :: "update_expression \<Rightarrow> action list" where
  "actions self = ue_actions self"

text \<open>
  Modelled from the spec: equality of two dereference steps. The header gives
  \<open>path\<close> no comparison; section 4.1 of the specification asks for the same step
  kind and value, indexes compared as integers and field names as exact strings.
\<close>

fun step_equal :: "deref_operator \<Rightarrow> deref_operator \<Rightarrow> bool" where
  "step_equal (Dot m) (Dot n) = (m = n)"
| "step_equal (Index i) (Index j) = (unat i = unat j)"
| "step_equal x y = False"

text \<open>
  Modelled from the spec: structural equality of paths, missing from the header:
  equal root and equal step sequence, that is the same length and equal steps at
  each position (section 4.1).
\<close>

definition path_equal :: "path \<Rightarrow> path \<Rightarrow> bool" where
  "path_equal p q =
     (path_root p = path_root q
      \<and> length (path_operators p) = length (path_operators q)
      \<and> list_all2 step_equal (path_operators p) (path_operators q))"

text \<open>
  Modelled from the spec: the body of \<open>update_expression::add\<close>, which the header
  only declares (line 190). Section 4.5: it fails with \<open>DuplicatePathError\<close> if an
  action added before targets a structurally equal path, whatever the two kinds;
  otherwise it appends the action and sets the "seen" flag of its kind.
\<close>

definition add :: "action \<Rightarrow> update_expression \<Rightarrow> update_expression outcome" where
  "add a self =
     (if list_ex (\<lambda>b. path_equal (action_path b) (action_path a)) (ue_actions self)
      then (Some (DuplicatePathError (action_path a)), self)
      else (None,
        (case action_variant a of
           A_set rhs \<Rightarrow> self\<lparr>ue_actions := ue_actions self @ [a], seen_set := True\<rparr>
         | A_remove \<Rightarrow> self\<lparr>ue_actions := ue_actions self @ [a], seen_remove := True\<rparr>
         | A_add v \<Rightarrow> self\<lparr>ue_actions := ue_actions self @ [a], seen_add := True\<rparr>
         | A_del v \<Rightarrow> self\<lparr>ue_actions := ue_actions self @ [a], seen_del := True\<rparr>)))"

text \<open>
  Modelled from the spec: the merge loop of \<open>update_expression::append\<close>, whose body
  is missing like that of \<open>add\<close>. Section 4.5 and section 8: the actions of the other
  expression go through \<open>add\<close> one at a time; the first collision aborts the merge and
  leaves the entries merged so far in place.
\<close>

fun add_each :: "action list \<Rightarrow> update_expression \<Rightarrow> update_expression outcome" where
  "add_each [] self = (None, self)"
| "add_each (a # as) self =
     (case add a self of
        (Some e, self') \<Rightarrow> (Some e, self')
      | (None, self') \<Rightarrow> add_each as self')"

text \<open>
  Modelled from the spec: \<open>update_expression::append\<close>, declared at line 191 of the
  header without a body. After the merge loop the four "seen" flags are merged by
  logical or (section 4.5).
\<close>

definition append_ue :: "update_expression \<Rightarrow> update_expression \<Rightarrow> update_expression outcome" where
  "append_ue other self =
     (case add_each (ue_actions other) self of
        (Some e, self') \<Rightarrow> (Some e, self')
      | (None, self') \<Rightarrow>
          (None, self'\<lparr>seen_set := seen_set self' \<or> seen_set other,
                       seen_remove := seen_remove self' \<or> seen_remove other,
                       seen_add := seen_add self' \<or> seen_add other,
                       seen_del := seen_del self' \<or> seen_del other\<rparr>))"

text \<open>
  A caller that offers actions to \<open>add\<close> one after the other and records what each
  call raised, going on after a failed call.
\<close>

fun add_all :: "action list \<Rightarrow> update_expression \<Rightarrow> error option list \<times> update_expression" where
  "add_all [] self = ([], self)"
| "add_all (a # as) self =
     (case add a self of
        (r, self') \<Rightarrow> (case add_all as self' of (rs, self'') \<Rightarrow> (r # rs, self'')))"

text \<open>
  The hypotheses of the claims about \<open>add\<close> and \<open>append\<close>, as executable tests: the
  target paths of a list of actions are pairwise structurally distinct; some action
  of one list targets the path of some action of another.
\<close>

fun paths_distinct :: "action list \<Rightarrow> bool" where
  "paths_distinct [] = True"
| "paths_distinct (a # as) =
     (\<not> list_ex (\<lambda>b. path_equal (action_path a) (action_path b)) as \<and> paths_distinct as)"

definition paths_overlap :: "action list \<Rightarrow> action list \<Rightarrow> bool" where
  "paths_overlap as bs =
     list_ex (\<lambda>a. list_ex (\<lambda>b. path_equal (action_path a) (action_path b)) bs) as"

text \<open>
  A front end building a path: \<open>set_root\<close> on a fresh path, then one \<open>add_dot\<close> or
  \<open>add_index\<close> call per step, in order.
\<close>

definition add_operator :: "deref_operator \<Rightarrow> path \<Rightarrow> path" where
  "add_operator x p = (case x of Dot name \<Rightarrow> add_dot name p | Index i \<Rightarrow> add_index i p)"

definition construct_path :: "string \<Rightarrow> deref_operator list \<Rightarrow> path" where
  "construct_path r xs = fold add_operator xs (set_root r path_default)"

text \<open>How many of a list of discriminants answer true.\<close>

definition count_true :: "bool list \<Rightarrow> nat" where
  "count_true bs = length (filter (\<lambda>b. b) bs)"

section \<open>Properties of the header's classes\<close>

lemma add_func_parameters_function_call:
  "add_func_parameters vs (V_function_call (Function_call s ps)) =
     (None, V_function_call (Function_call s (ps @ vs)))"
  by (induction vs arbitrary: ps) simp_all

text \<open>
  Claim C6. On any \<open>set_rhs\<close>, \<open>set_value v1\<close> followed by \<open>set_plus v2\<close> leaves the
  tag \<open>'+'\<close>, operand 1 still \<open>v1\<close> and operand 2 \<open>v2\<close>; with \<open>set_minus v2\<close> the tag is
  \<open>'-'\<close>; after \<open>set_value v1\<close> alone the tag is \<open>'v'\<close> and operand 1 is \<open>v1\<close>.
  \<open>set_plus\<close> and \<open>set_minus\<close> do not touch operand 1 of any \<open>set_rhs\<close>.
\<close>

theorem set_rhs_two_phase:
  "rhs_op (set_plus v2 (set_value v1 r)) = CHR ''+''
   \<and> rhs_v1 (set_plus v2 (set_value v1 r)) = v1
   \<and> rhs_v2 (set_plus v2 (set_value v1 r)) = v2
   \<and> rhs_op (set_minus v2 (set_value v1 r)) = CHR ''-''
   \<and> rhs_v1 (set_minus v2 (set_value v1 r)) = v1
   \<and> rhs_v2 (set_minus v2 (set_value v1 r)) = v2
   \<and> rhs_op (set_value v1 r) = CHR ''v''
   \<and> rhs_v1 (set_value v1 r) = v1
   \<and> rhs_v1 (set_plus v2 r) = rhs_v1 r
   \<and> rhs_v1 (set_minus v2 r) = rhs_v1 r"
  by (simp add: set_value_def set_plus_def set_minus_def)

text \<open>
  Claim C7. Starting from any value, \<open>set_func_name s\<close> followed by appending the
  values \<open>vs\<close> one by one raises nothing and gives a value that is a function call,
  whose \<open>as_function_call\<close> has name \<open>s\<close> and exactly the parameters \<open>vs\<close>, in call
  order (so \<open>length vs\<close> of them).
\<close>

theorem function_call_parameters_in_order:
  "fst (add_func_parameters vs (set_func_name s v0)) = None
   \<and> is_function_call (snd (add_func_parameters vs (set_func_name s v0)))
   \<and> as_function_call (snd (add_func_parameters vs (set_func_name s v0)))
       = Inr (Function_call s vs)
   \<and> map_sum id function_name
        (as_function_call (snd (add_func_parameters vs (set_func_name s v0)))) = Inr s
   \<and> map_sum id parameters
        (as_function_call (snd (add_func_parameters vs (set_func_name s v0)))) = Inr vs
   \<and> map_sum id (length \<circ> parameters)
        (as_function_call (snd (add_func_parameters vs (set_func_name s v0))))
       = Inr (length vs)"
  by (simp add: set_func_name_def add_func_parameters_function_call)

text \<open>
  Claim C8. For every value exactly one of \<open>is_valref\<close>, \<open>is_path\<close>,
  \<open>is_function_call\<close> is true. For every action exactly one of \<open>is_set\<close>,
  \<open>is_remove\<close>, \<open>is_add\<close>, \<open>is_del\<close> is true, and after \<open>assign_set\<close>,
  \<open>assign_remove\<close>, \<open>assign_add\<close>, \<open>assign_del\<close> it is the matching one.
\<close>

theorem discriminants_exactly_one:
  "count_true [is_valref v, is_path v, is_function_call v] = 1
   \<and> count_true [is_set a, is_remove a, is_add a, is_del a] = 1
   \<and> is_set (assign_set p rhs a)
   \<and> is_remove (assign_remove p a)
   \<and> is_add (assign_add p s a)
   \<and> is_del (assign_del p s a)"
proof -
  have "count_true [is_valref v, is_path v, is_function_call v] = 1"
    by (cases v) (simp_all add: count_true_def)
  moreover have "count_true [is_set a, is_remove a, is_add a, is_del a] = 1"
    by (cases "action_variant a")
      (simp_all add: count_true_def is_set_def is_remove_def is_add_def is_del_def)
  moreover have "is_set (assign_set p rhs a)"
    by (simp add: is_set_def assign_set_def)
  moreover have "is_remove (assign_remove p a)"
    by (simp add: is_remove_def assign_remove_def)
  moreover have "is_add (assign_add p s a)"
    by (simp add: is_add_def assign_add_def)
  moreover have "is_del (assign_del p s a)"
    by (simp add: is_del_def assign_del_def)
  ultimately show ?thesis by blast
qed

text \<open>
  Claim C9. On a value that does not hold a function call (it answers \<open>is_valref\<close>
  or \<open>is_path\<close>), \<open>add_func_parameter\<close> raises and leaves the value as it was. This
  covers the fresh value and the values set by \<open>set_valref\<close> and \<open>set_path\<close>. The
  exception of the source is \<open>std::bad_variant_access\<close>, thrown by \<open>std::get\<close>.
\<close>

theorem add_func_parameter_before_func_name:
  "(is_valref self \<or> is_path self \<longrightarrow>
      add_func_parameter v self = (Some bad_variant_access, self))
   \<and> add_func_parameter v parsed_value_default
       = (Some bad_variant_access, parsed_value_default)
   \<and> add_func_parameter v (set_valref s v0) = (Some bad_variant_access, set_valref s v0)
   \<and> add_func_parameter v (set_path p v0) = (Some bad_variant_access, set_path p v0)"
  by (cases self) (simp_all add: parsed_value_default_def set_valref_def set_path_def)

theorem add_func_parameter_before_func_name_witness:
  "is_valref (V_string ''x'')
   \<and> add_func_parameter (V_string '':v'') (V_string ''x'')
       = (Some bad_variant_access, V_string ''x'')
   \<and> is_path (V_path \<lparr>path_root = ''a'', path_operators = [Index 3]\<rparr>)
   \<and> add_func_parameter (V_string '':v'')
        (V_path \<lparr>path_root = ''a'', path_operators = [Index 3]\<rparr>)
       = (Some bad_variant_access, V_path \<lparr>path_root = ''a'', path_operators = [Index 3]\<rparr>)"
  using add_func_parameter_before_func_name
          [of "V_string ''x''" "V_string '':v''" "[]" parsed_value_default path_default]
        add_func_parameter_before_func_name
          [of "V_path \<lparr>path_root = ''a'', path_operators = [Index 3]\<rparr>" "V_string '':v''"
              "[]" parsed_value_default path_default]
  by simp

text \<open>
  Claim C10. A default-constructed value holds the value-reference alternative:
  \<open>is_valref\<close> is true, \<open>is_path\<close> and \<open>is_function_call\<close> are false, and
  \<open>as_valref\<close> returns the empty string.
\<close>

theorem default_value_is_empty_valref:
  "is_valref parsed_value_default
   \<and> \<not> is_path parsed_value_default
   \<and> \<not> is_function_call parsed_value_default
   \<and> as_valref parsed_value_default = Inr []"
  by (simp add: parsed_value_default_def)

section \<open>Properties of add and append as the specification describes them\<close>

lemma step_equal_iff: "step_equal x y \<longleftrightarrow> x = y"
  by (cases x; cases y) (simp_all add: word_unat_eq_iff)

lemma list_all2_step_equal: "list_all2 step_equal xs ys \<longleftrightarrow> xs = ys"
  by (simp add: step_equal_iff[abs_def] list.rel_eq)

lemma path_equal_iff: "path_equal p q \<longleftrightarrow> p = q"
  by (auto simp: path_equal_def list_all2_step_equal)

lemma collides_iff:
  "list_ex (\<lambda>b. path_equal (action_path b) p) xs \<longleftrightarrow> p \<in> action_path ` set xs"
  by (auto simp: list_ex_iff path_equal_iff)

lemma add_collides:
  "action_path a \<in> action_path ` set (ue_actions e) \<Longrightarrow>
     add a e = (Some (DuplicatePathError (action_path a)), e)"
  by (simp add: add_def collides_iff)

lemma add_fresh:
  "action_path a \<notin> action_path ` set (ue_actions e) \<Longrightarrow>
     fst (add a e) = None \<and> ue_actions (snd (add a e)) = ue_actions e @ [a]"
  by (simp add: add_def collides_iff split: action_variant.splits)

lemma paths_distinct_iff: "paths_distinct xs \<longleftrightarrow> distinct (map action_path xs)"
  by (induction xs) (auto simp: list_ex_iff path_equal_iff)

lemma paths_overlap_iff:
  "paths_overlap xs ys \<longleftrightarrow> action_path ` set xs \<inter> action_path ` set ys \<noteq> {}"
  by (auto simp: paths_overlap_def list_ex_iff path_equal_iff)

lemma construct_path_fold:
  "fold add_operator xs p = p\<lparr>path_operators := path_operators p @ xs\<rparr>"
  by (induction xs arbitrary: p)
     (simp_all add: add_operator_def add_dot_def add_index_def split: deref_operator.splits)

lemma construct_path_eq:
  "construct_path r xs = \<lparr>path_root = r, path_operators = xs\<rparr>"
  by (simp add: construct_path_def construct_path_fold set_root_def path_default_def)

lemma add_all_fresh:
  "distinct (map action_path xs) \<Longrightarrow>
   action_path ` set xs \<inter> action_path ` set (ue_actions e) = {} \<Longrightarrow>
     fst (add_all xs e) = replicate (length xs) None
     \<and> ue_actions (snd (add_all xs e)) = ue_actions e @ xs"
proof (induction xs arbitrary: e)
  case Nil
  then show ?case by simp
next
  case (Cons a xs)
  from Cons.prems have fresh: "action_path a \<notin> action_path ` set (ue_actions e)"
    by auto
  obtain e' where step: "add a e = (None, e')" and acts: "ue_actions e' = ue_actions e @ [a]"
    using add_fresh [OF fresh] by (cases "add a e") auto
  from Cons.prems acts
  have "action_path ` set xs \<inter> action_path ` set (ue_actions e') = {}"
    by auto
  with Cons.IH [of e'] Cons.prems
  have "fst (add_all xs e') = replicate (length xs) None
        \<and> ue_actions (snd (add_all xs e')) = ue_actions e' @ xs"
    by simp
  with step acts show ?case
    by (simp add: split_beta)
qed

lemma add_each_fresh:
  "distinct (map action_path xs) \<Longrightarrow>
   action_path ` set xs \<inter> action_path ` set (ue_actions e) = {} \<Longrightarrow>
     fst (add_each xs e) = None
     \<and> ue_actions (snd (add_each xs e)) = ue_actions e @ xs"
proof (induction xs arbitrary: e)
  case Nil
  then show ?case by simp
next
  case (Cons a xs)
  from Cons.prems have fresh: "action_path a \<notin> action_path ` set (ue_actions e)"
    by auto
  obtain e' where step: "add a e = (None, e')" and acts: "ue_actions e' = ue_actions e @ [a]"
    using add_fresh [OF fresh] by (cases "add a e") auto
  from Cons.prems acts
  have "action_path ` set xs \<inter> action_path ` set (ue_actions e') = {}"
    by auto
  with Cons.IH [of e'] Cons.prems
  have "fst (add_each xs e') = None
        \<and> ue_actions (snd (add_each xs e')) = ue_actions e' @ xs"
    by simp
  with step acts show ?case
    by simp
qed

text \<open>The merge loop only ever appends: what it leaves starts with what it found.\<close>

lemma add_grows:
  "\<exists>ys. ue_actions (snd (add a e)) = ue_actions e @ ys"
  by (simp add: add_def split: action_variant.splits)

lemma add_each_grows:
  "\<exists>ys. ue_actions (snd (add_each xs e)) = ue_actions e @ ys"
proof (induction xs arbitrary: e)
  case Nil
  then show ?case by simp
next
  case (Cons a xs)
  show ?case
  proof (cases "action_path a \<in> action_path ` set (ue_actions e)")
    case True
    then show ?thesis by (simp add: add_collides)
  next
    case False
    then obtain e' where step: "add a e = (None, e')"
      and acts: "ue_actions e' = ue_actions e @ [a]"
      using add_fresh [of a e] by (cases "add a e") auto
    from Cons.IH [of e'] obtain ys where "ue_actions (snd (add_each xs e')) = ue_actions e' @ ys"
      by blast
    with step acts show ?thesis by simp
  qed
qed

lemma add_each_collides:
  "action_path ` set xs \<inter> action_path ` set (ue_actions e) \<noteq> {} \<Longrightarrow>
     \<exists>p. fst (add_each xs e) = Some (DuplicatePathError p)"
proof (induction xs arbitrary: e)
  case Nil
  then show ?case by simp
next
  case (Cons a xs)
  show ?case
  proof (cases "action_path a \<in> action_path ` set (ue_actions e)")
    case True
    then show ?thesis by (simp add: add_collides)
  next
    case False
    then obtain e' where step: "add a e = (None, e')"
      and acts: "ue_actions e' = ue_actions e @ [a]"
      using add_fresh [of a e] by (cases "add a e") auto
    from False Cons.prems acts
    have "action_path ` set xs \<inter> action_path ` set (ue_actions e') \<noteq> {}"
      by auto
    from Cons.IH [OF this] step show ?thesis by simp
  qed
qed

lemma append_ue_fst: "fst (append_ue other self) = fst (add_each (ue_actions other) self)"
  by (simp add: append_ue_def split: prod.splits option.splits)

lemma append_ue_actions:
  "ue_actions (snd (append_ue other self)) = ue_actions (snd (add_each (ue_actions other) self))"
  by (simp add: append_ue_def split: prod.splits option.splits)


lemma filter_path_fresh:
  "action_path a \<notin> action_path ` set xs \<Longrightarrow>
     filter (\<lambda>b. path_equal (action_path b) (action_path a)) xs = []"
  by (induction xs) (auto simp: path_equal_iff)

lemma add_twice_collides:
  assumes "action_path a2 = action_path a1"
  shows "add a2 (snd (add a1 e))
           = (Some (DuplicatePathError (action_path a2)), snd (add a1 e))"
proof (cases "action_path a1 \<in> action_path ` set (ue_actions e)")
  case True
  then show ?thesis by (simp add: add_collides assms)
next
  case False
  then have "ue_actions (snd (add a1 e)) = ue_actions e @ [a1]"
    by (simp add: add_fresh)
  then have "action_path a2 \<in> action_path ` set (ue_actions (snd (add a1 e)))"
    by (simp add: assms)
  then show ?thesis by (rule add_collides)
qed

lemma paths_distinct_default: "paths_distinct (actions update_expression_default)"
  by (simp add: actions_def update_expression_default_def)

lemma paths_distinct_add:
  "paths_distinct (actions e) \<Longrightarrow> paths_distinct (actions (snd (add a e)))"
proof (cases "action_path a \<in> action_path ` set (ue_actions e)")
  case True
  assume "paths_distinct (actions e)"
  with True show ?thesis by (simp add: add_collides)
next
  case False
  assume "paths_distinct (actions e)"
  with False show ?thesis
    by (simp add: add_fresh paths_distinct_iff actions_def)
qed

lemma paths_distinct_add_each:
  "paths_distinct (actions e) \<Longrightarrow> paths_distinct (actions (snd (add_each xs e)))"
proof (induction xs arbitrary: e)
  case Nil
  then show ?case by simp
next
  case (Cons a xs)
  show ?case
  proof (cases "action_path a \<in> action_path ` set (ue_actions e)")
    case True
    with Cons.prems show ?thesis by (simp add: add_collides)
  next
    case False
    then obtain e' where step: "add a e = (None, e')"
      using add_fresh [of a e] by (cases "add a e") auto
    have "paths_distinct (actions (snd (add a e)))"
      using Cons.prems by (rule paths_distinct_add)
    with step have "paths_distinct (actions e')" by simp
    from Cons.IH [OF this] step show ?thesis by simp
  qed
qed

lemma paths_distinct_append_ue:
  "paths_distinct (actions e) \<Longrightarrow> paths_distinct (actions (snd (append_ue other e)))"
  using paths_distinct_add_each [of e "ue_actions other"]
  by (simp add: actions_def append_ue_actions)

text \<open>
  Claim C1. Let the target paths of \<open>a1\<close> and \<open>a2\<close> be structurally equal, whatever
  the kinds of the two actions. On any expression, the \<open>add\<close> of \<open>a2\<close> that follows
  the \<open>add\<close> of \<open>a1\<close> raises \<open>DuplicatePathError\<close> and leaves the expression as it
  was; and when the first call was accepted, \<open>a1\<close> is afterwards the only entry of
  \<open>actions\<close> with that path.
\<close>

theorem add_same_path_twice:
  assumes "path_equal (action_path a1) (action_path a2)"
  shows "add a2 (snd (add a1 e))
           = (Some (DuplicatePathError (action_path a2)), snd (add a1 e))
         \<and> (fst (add a1 e) = None \<longrightarrow>
              filter (\<lambda>b. path_equal (action_path b) (action_path a1))
                (actions (snd (add a2 (snd (add a1 e))))) = [a1])"
proof -
  from assms have same: "action_path a2 = action_path a1"
    by (simp add: path_equal_iff)
  then have second: "add a2 (snd (add a1 e))
      = (Some (DuplicatePathError (action_path a2)), snd (add a1 e))"
    by (rule add_twice_collides)
  have "filter (\<lambda>b. path_equal (action_path b) (action_path a1))
          (actions (snd (add a1 e))) = [a1]"
    if accepted: "fst (add a1 e) = None"
  proof -
    from accepted have fresh: "action_path a1 \<notin> action_path ` set (ue_actions e)"
      by (auto simp: add_collides)
    then have "ue_actions (snd (add a1 e)) = ue_actions e @ [a1]"
      by (simp add: add_fresh)
    with filter_path_fresh [OF fresh] show ?thesis
      by (simp add: actions_def path_equal_iff)
  qed
  with second show ?thesis by simp
qed

theorem add_same_path_twice_witness:
  "path_equal \<lparr>path_root = ''c'', path_operators = []\<rparr> \<lparr>path_root = ''c'', path_operators = []\<rparr>
   \<and> add \<lparr>action_path = \<lparr>path_root = ''c'', path_operators = []\<rparr>, action_variant = A_add '':v''\<rparr>
        (snd (add \<lparr>action_path = \<lparr>path_root = ''c'', path_operators = []\<rparr>,
                   action_variant = A_remove\<rparr> update_expression_default))
      = (Some (DuplicatePathError \<lparr>path_root = ''c'', path_operators = []\<rparr>),
         \<lparr>ue_actions = [\<lparr>action_path = \<lparr>path_root = ''c'', path_operators = []\<rparr>,
                         action_variant = A_remove\<rparr>],
          seen_set = False, seen_remove = True, seen_add = False, seen_del = False\<rparr>)
   \<and> fst (add \<lparr>action_path = \<lparr>path_root = ''c'', path_operators = []\<rparr>,
                action_variant = A_remove\<rparr> update_expression_default) = None
   \<and> filter (\<lambda>b. path_equal (action_path b) \<lparr>path_root = ''c'', path_operators = []\<rparr>)
       (actions (snd (add
          \<lparr>action_path = \<lparr>path_root = ''c'', path_operators = []\<rparr>, action_variant = A_add '':v''\<rparr>
          (snd (add \<lparr>action_path = \<lparr>path_root = ''c'', path_operators = []\<rparr>,
                     action_variant = A_remove\<rparr> update_expression_default)))))
      = [\<lparr>action_path = \<lparr>path_root = ''c'', path_operators = []\<rparr>, action_variant = A_remove\<rparr>]"
  using add_same_path_twice
    [of "\<lparr>action_path = \<lparr>path_root = ''c'', path_operators = []\<rparr>, action_variant = A_remove\<rparr>"
        "\<lparr>action_path = \<lparr>path_root = ''c'', path_operators = []\<rparr>, action_variant = A_add '':v''\<rparr>"
        update_expression_default]
  by (simp add: path_equal_def add_def update_expression_default_def actions_def)

text \<open>
  Claim C2. When the target paths of a sequence of actions are pairwise structurally
  distinct, every \<open>add\<close> call on a fresh expression is accepted and \<open>actions\<close>
  afterwards is exactly that sequence, in the order of the calls.
\<close>

theorem add_distinct_paths:
  assumes "paths_distinct xs"
  shows "fst (add_all xs update_expression_default) = replicate (length xs) None
         \<and> actions (snd (add_all xs update_expression_default)) = xs"
proof -
  from assms have "distinct (map action_path xs)"
    by (simp add: paths_distinct_iff)
  moreover have "action_path ` set xs
      \<inter> action_path ` set (ue_actions update_expression_default) = {}"
    by (simp add: update_expression_default_def)
  ultimately show ?thesis
    using add_all_fresh [of xs update_expression_default]
    by (simp add: actions_def update_expression_default_def)
qed

theorem add_distinct_paths_witness:
  "paths_distinct
     [\<lparr>action_path = \<lparr>path_root = ''a'', path_operators = [Dot ''b'']\<rparr>,
       action_variant = A_add '':x''\<rparr>,
      \<lparr>action_path = \<lparr>path_root = ''c'', path_operators = []\<rparr>, action_variant = A_remove\<rparr>]
   \<and> fst (add_all
       [\<lparr>action_path = \<lparr>path_root = ''a'', path_operators = [Dot ''b'']\<rparr>,
         action_variant = A_add '':x''\<rparr>,
        \<lparr>action_path = \<lparr>path_root = ''c'', path_operators = []\<rparr>, action_variant = A_remove\<rparr>]
       update_expression_default) = [None, None]
   \<and> actions (snd (add_all
       [\<lparr>action_path = \<lparr>path_root = ''a'', path_operators = [Dot ''b'']\<rparr>,
         action_variant = A_add '':x''\<rparr>,
        \<lparr>action_path = \<lparr>path_root = ''c'', path_operators = []\<rparr>, action_variant = A_remove\<rparr>]
       update_expression_default))
      = [\<lparr>action_path = \<lparr>path_root = ''a'', path_operators = [Dot ''b'']\<rparr>,
          action_variant = A_add '':x''\<rparr>,
         \<lparr>action_path = \<lparr>path_root = ''c'', path_operators = []\<rparr>, action_variant = A_remove\<rparr>]"
  using add_distinct_paths
    [of "[\<lparr>action_path = \<lparr>path_root = ''a'', path_operators = [Dot ''b'']\<rparr>,
           action_variant = A_add '':x''\<rparr>,
          \<lparr>action_path = \<lparr>path_root = ''c'', path_operators = []\<rparr>,
           action_variant = A_remove\<rparr>]"]
  by (simp add: path_equal_def)

text \<open>
  Claim C3. When some action of \<open>other\<close> targets a path structurally equal to the
  target of some action of \<open>self\<close>, \<open>append\<close> raises \<open>DuplicatePathError\<close>, and the
  actions of \<open>self\<close> afterwards still start with all its original actions.
\<close>

theorem append_colliding_path:
  assumes "paths_overlap (actions other) (actions self)"
  shows "(\<exists>p. fst (append_ue other self) = Some (DuplicatePathError p))
         \<and> take (length (actions self)) (actions (snd (append_ue other self))) = actions self
         \<and> set (actions self) \<subseteq> set (actions (snd (append_ue other self)))"
proof -
  from assms
  have "action_path ` set (ue_actions other) \<inter> action_path ` set (ue_actions self) \<noteq> {}"
    by (simp add: paths_overlap_iff actions_def)
  then have "\<exists>p. fst (add_each (ue_actions other) self) = Some (DuplicatePathError p)"
    by (rule add_each_collides)
  then have raised: "\<exists>p. fst (append_ue other self) = Some (DuplicatePathError p)"
    by (simp add: append_ue_fst)
  obtain ys where "ue_actions (snd (add_each (ue_actions other) self)) = ue_actions self @ ys"
    using add_each_grows by blast
  then have kept: "actions (snd (append_ue other self)) = actions self @ ys"
    by (simp add: append_ue_actions actions_def)
  from raised kept show ?thesis by simp
qed

theorem append_colliding_path_witness:
  "paths_overlap
     (actions \<lparr>ue_actions =
        [\<lparr>action_path = \<lparr>path_root = ''d'', path_operators = []\<rparr>, action_variant = A_add '':x''\<rparr>,
         \<lparr>action_path = \<lparr>path_root = ''c'', path_operators = []\<rparr>, action_variant = A_add '':y''\<rparr>],
        seen_set = False, seen_remove = False, seen_add = True, seen_del = False\<rparr>)
     (actions \<lparr>ue_actions =
        [\<lparr>action_path = \<lparr>path_root = ''c'', path_operators = []\<rparr>, action_variant = A_remove\<rparr>],
        seen_set = False, seen_remove = True, seen_add = False, seen_del = False\<rparr>)
   \<and> append_ue
       \<lparr>ue_actions =
        [\<lparr>action_path = \<lparr>path_root = ''d'', path_operators = []\<rparr>, action_variant = A_add '':x''\<rparr>,
         \<lparr>action_path = \<lparr>path_root = ''c'', path_operators = []\<rparr>, action_variant = A_add '':y''\<rparr>],
        seen_set = False, seen_remove = False, seen_add = True, seen_del = False\<rparr>
       \<lparr>ue_actions =
        [\<lparr>action_path = \<lparr>path_root = ''c'', path_operators = []\<rparr>, action_variant = A_remove\<rparr>],
        seen_set = False, seen_remove = True, seen_add = False, seen_del = False\<rparr>
     = (Some (DuplicatePathError \<lparr>path_root = ''c'', path_operators = []\<rparr>),
        \<lparr>ue_actions =
         [\<lparr>action_path = \<lparr>path_root = ''c'', path_operators = []\<rparr>, action_variant = A_remove\<rparr>,
          \<lparr>action_path = \<lparr>path_root = ''d'', path_operators = []\<rparr>, action_variant = A_add '':x''\<rparr>],
         seen_set = False, seen_remove = True, seen_add = True, seen_del = False\<rparr>)"
  using append_colliding_path
    [of "\<lparr>ue_actions =
        [\<lparr>action_path = \<lparr>path_root = ''d'', path_operators = []\<rparr>, action_variant = A_add '':x''\<rparr>,
         \<lparr>action_path = \<lparr>path_root = ''c'', path_operators = []\<rparr>, action_variant = A_add '':y''\<rparr>],
        seen_set = False, seen_remove = False, seen_add = True, seen_del = False\<rparr>"
        "\<lparr>ue_actions =
        [\<lparr>action_path = \<lparr>path_root = ''c'', path_operators = []\<rparr>, action_variant = A_remove\<rparr>],
        seen_set = False, seen_remove = True, seen_add = False, seen_del = False\<rparr>"]
  by (simp add: paths_overlap_def actions_def path_equal_def append_ue_def add_def)

text \<open>
  Claim C4. When no action of \<open>other\<close> targets a path of \<open>self\<close> (and \<open>other\<close>
  satisfies the invariant of every expression, pairwise distinct target paths, which
  \<open>paths_distinct_default\<close>, \<open>paths_distinct_add\<close> and \<open>paths_distinct_append_ue\<close>
  establish), \<open>append\<close> is accepted, the merged expression holds the actions of
  \<open>self\<close> followed by those of \<open>other\<close>, and their number is the sum of the two.
\<close>

theorem append_disjoint_paths:
  assumes "paths_distinct (actions other)"
    and "\<not> paths_overlap (actions other) (actions self)"
  shows "fst (append_ue other self) = None
         \<and> actions (snd (append_ue other self)) = actions self @ actions other
         \<and> length (actions (snd (append_ue other self)))
             = length (actions self) + length (actions other)"
proof -
  from assms(1) have d: "distinct (map action_path (ue_actions other))"
    by (simp add: paths_distinct_iff actions_def)
  from assms(2)
  have "action_path ` set (ue_actions other) \<inter> action_path ` set (ue_actions self) = {}"
    by (simp add: paths_overlap_iff actions_def)
  with d have "fst (add_each (ue_actions other) self) = None
      \<and> ue_actions (snd (add_each (ue_actions other) self))
          = ue_actions self @ ue_actions other"
    by (rule add_each_fresh)
  then show ?thesis
    by (simp add: append_ue_fst append_ue_actions actions_def)
qed


theorem append_disjoint_paths_witness:
  "paths_distinct
     (actions \<lparr>ue_actions =
        [\<lparr>action_path = \<lparr>path_root = ''d'', path_operators = []\<rparr>, action_variant = A_add '':x''\<rparr>],
        seen_set = False, seen_remove = False, seen_add = True, seen_del = False\<rparr>)
   \<and> \<not> paths_overlap
     (actions \<lparr>ue_actions =
        [\<lparr>action_path = \<lparr>path_root = ''d'', path_operators = []\<rparr>, action_variant = A_add '':x''\<rparr>],
        seen_set = False, seen_remove = False, seen_add = True, seen_del = False\<rparr>)
     (actions \<lparr>ue_actions =
        [\<lparr>action_path = \<lparr>path_root = ''c'', path_operators = []\<rparr>, action_variant = A_remove\<rparr>],
        seen_set = False, seen_remove = True, seen_add = False, seen_del = False\<rparr>)
   \<and> append_ue
       \<lparr>ue_actions =
        [\<lparr>action_path = \<lparr>path_root = ''d'', path_operators = []\<rparr>, action_variant = A_add '':x''\<rparr>],
        seen_set = False, seen_remove = False, seen_add = True, seen_del = False\<rparr>
       \<lparr>ue_actions =
        [\<lparr>action_path = \<lparr>path_root = ''c'', path_operators = []\<rparr>, action_variant = A_remove\<rparr>],
        seen_set = False, seen_remove = True, seen_add = False, seen_del = False\<rparr>
     = (None,
        \<lparr>ue_actions =
         [\<lparr>action_path = \<lparr>path_root = ''c'', path_operators = []\<rparr>, action_variant = A_remove\<rparr>,
          \<lparr>action_path = \<lparr>path_root = ''d'', path_operators = []\<rparr>, action_variant = A_add '':x''\<rparr>],
         seen_set = False, seen_remove = True, seen_add = True, seen_del = False\<rparr>)"
  using append_disjoint_paths
    [of "\<lparr>ue_actions =
        [\<lparr>action_path = \<lparr>path_root = ''d'', path_operators = []\<rparr>, action_variant = A_add '':x''\<rparr>],
        seen_set = False, seen_remove = False, seen_add = True, seen_del = False\<rparr>"
        "\<lparr>ue_actions =
        [\<lparr>action_path = \<lparr>path_root = ''c'', path_operators = []\<rparr>, action_variant = A_remove\<rparr>],
        seen_set = False, seen_remove = True, seen_add = False, seen_del = False\<rparr>"]
  by (simp add: paths_overlap_def actions_def path_equal_def append_ue_def add_def)

text \<open>
  Claim C5. Two paths constructed separately, with the same root and with step
  sequences of the same length that have the same kind and value at each position
  (indexes compared as integers, field names as strings), are equal for collision
  detection: adding an action on the second after an action on the first raises
  \<open>DuplicatePathError\<close>. The paths with root \<open>a\<close> and steps \<open>.b\<close>, \<open>[3]\<close> are the
  instance evaluated below.
\<close>

theorem path_equality_structural:
  assumes "length xs = length ys"
    and "\<forall>i<length xs. step_equal (xs ! i) (ys ! i)"
  shows "path_equal (construct_path r xs) (construct_path r ys)
         \<and> add (a2\<lparr>action_path := construct_path r ys\<rparr>)
             (snd (add (a1\<lparr>action_path := construct_path r xs\<rparr>) e))
           = (Some (DuplicatePathError (construct_path r ys)),
              snd (add (a1\<lparr>action_path := construct_path r xs\<rparr>) e))"
proof -
  from assms have "list_all2 step_equal xs ys"
    by (simp add: list_all2_conv_all_nth)
  with assms(1) have eq: "path_equal (construct_path r xs) (construct_path r ys)"
    by (simp add: path_equal_def construct_path_eq)
  then have "action_path (a2\<lparr>action_path := construct_path r ys\<rparr>)
      = action_path (a1\<lparr>action_path := construct_path r xs\<rparr>)"
    by (simp add: path_equal_iff)
  from add_twice_collides [OF this, of e] eq show ?thesis
    by simp
qed

theorem path_equality_structural_witness:
  "length [Dot ''b'', Index 3] = length [Dot ''b'', Index 3]
   \<and> step_equal ([Dot ''b'', Index 3] ! 0) ([Dot ''b'', Index 3] ! 0)
   \<and> step_equal ([Dot ''b'', Index 3] ! 1) ([Dot ''b'', Index 3] ! 1)
   \<and> path_equal (construct_path ''a'' [Dot ''b'', Index 3])
       (construct_path ''a'' [Dot ''b'', Index 3])
   \<and> add \<lparr>action_path = construct_path ''a'' [Dot ''b'', Index 3], action_variant = A_add '':v''\<rparr>
       (snd (add \<lparr>action_path = construct_path ''a'' [Dot ''b'', Index 3],
                  action_variant = A_remove\<rparr> update_expression_default))
     = (Some (DuplicatePathError \<lparr>path_root = ''a'', path_operators = [Dot ''b'', Index 3]\<rparr>),
        \<lparr>ue_actions =
           [\<lparr>action_path = \<lparr>path_root = ''a'', path_operators = [Dot ''b'', Index 3]\<rparr>,
             action_variant = A_remove\<rparr>],
         seen_set = False, seen_remove = True, seen_add = False, seen_del = False\<rparr>)"
  using path_equality_structural
    [where xs = "[Dot ''b'', Index 3]" and ys = "[Dot ''b'', Index 3]" and r = "''a''"
       and ?a1.0 = "\<lparr>action_path = path_default, action_variant = A_remove\<rparr>"
       and ?a2.0 = "\<lparr>action_path = path_default, action_variant = A_add '':v''\<rparr>"
       and e = update_expression_default]
  by (simp add: All_less_Suc path_equal_def add_def update_expression_default_def
        construct_path_def add_operator_def add_dot_def add_index_def set_root_def
        path_default_def)

end
